theory Spec2Isabelle
  imports Complex_Main "HOL-Library.Word"
begin

section \<open>Geometry and point clouds\<close>

text \<open>
  \<^verbatim>\<open>r3.Vector\<close> has three \<^verbatim>\<open>float64\<close> fields. Throughout this development a
  \<^verbatim>\<open>float64\<close> is idealised as a real number: comparisons and the thresholds of the
  code are kept exactly as written, rounding, infinities and NaN are not modelled.
\<close>

record Vector =
  X :: real
  Y :: real
  Z :: real

text \<open>
  \<^verbatim>\<open>pointcloud.Data\<close> as the classifier reads it: \<^verbatim>\<open>HasColor()\<close> and the three
  \<^verbatim>\<open>uint8\<close> channels of \<^verbatim>\<open>RGB255()\<close>. A point whose data is \<^verbatim>\<open>nil\<close> carries
  \<open>None\<close>.
\<close>

record Data =
  HasColor :: bool
  R255 :: "8 word"
  G255 :: "8 word"
  B255 :: "8 word"

text \<open>
  A point cloud is its metadata field \<^verbatim>\<open>MaxZ\<close> and the points \<^verbatim>\<open>Iterate(0, 0, fn)\<close>
  visits. The callback of \<^verbatim>\<open>estimatePieceColor\<close> always returns true, so every point
  is visited once.
\<close>

record PointCloud =
  MaxZ :: real
  points :: "(Vector \<times> Data option) list"

section \<open>The occupancy classifier\<close>

definition minPieceSize :: real where
  "minPieceSize = 20.0"

record totals =
  totalR :: real
  totalG :: real
  totalB :: real
  count :: int

definition zero_totals :: totals where
  "zero_totals = \<lparr>totalR = 0, totalG = 0, totalB = 0, count = 0\<rparr>"

text \<open>The test of the callback: \<^verbatim>\<open>p.Z < minZ && d != nil && d.HasColor()\<close>.\<close>

definition counted :: "real \<Rightarrow> Vector \<times> Data option \<Rightarrow> bool" where
  "counted minZ pd =
     (case pd of (p, d) \<Rightarrow>
        (case d of None \<Rightarrow> False | Some c \<Rightarrow> Z p < minZ \<and> HasColor c))"

text \<open>One call of the callback passed to \<^verbatim>\<open>pc.Iterate\<close>.\<close>

definition visit :: "real \<Rightarrow> totals \<Rightarrow> Vector \<times> Data option \<Rightarrow> totals" where
  "visit minZ t pd =
     (case pd of (p, d) \<Rightarrow>
        (case d of
           None \<Rightarrow> t
         | Some c \<Rightarrow>
             if Z p < minZ \<and> HasColor c
             then \<lparr>totalR = totalR t + real (unat (R255 c)),
                   totalG = totalG t + real (unat (G255 c)),
                   totalB = totalB t + real (unat (B255 c)),
                   count = count t + 1\<rparr>
             else t))"

text \<open>The state of the four accumulators when \<^verbatim>\<open>Iterate\<close> returns.\<close>

definition accumulate :: "PointCloud \<Rightarrow> totals" where
  "accumulate pc = foldl (visit (MaxZ pc - minPieceSize)) zero_totals (points pc)"

text \<open>The local \<^verbatim>\<open>brightness\<close>, computed from the accumulators.\<close>

definition brightness :: "totals \<Rightarrow> real" where
  "brightness t =
     (let avgR = totalR t / real_of_int (count t);
          avgG = totalG t / real_of_int (count t);
          avgB = totalB t / real_of_int (count t)
      in (avgR + avgG + avgB) / 3.0)"

text \<open>\<^verbatim>\<open>estimatePieceColor\<close>: 0 - blank, 1 - white, 2 - black.\<close>

definition estimatePieceColor :: "PointCloud \<Rightarrow> int" where
  "estimatePieceColor pc =
     (let t = accumulate pc in
      if count t \<le> 10 then 0
      else if brightness t > 128 then 1
      else 2)"

section \<open>Snapshots and the coordinate resolver\<close>

text \<open>\<^verbatim>\<open>strings.HasPrefix\<close> and \<^verbatim>\<open>strings.HasSuffix\<close> of the Go standard library.\<close>

definition HasPrefix :: "string \<Rightarrow> string \<Rightarrow> bool" where
  "HasPrefix s prefix = (length prefix \<le> length s \<and> take (length prefix) s = prefix)"

definition HasSuffix :: "string \<Rightarrow> string \<Rightarrow> bool" where
  "HasSuffix s suffix =
     (length suffix \<le> length s \<and> drop (length s - length suffix) s = suffix)"

text \<open>
  A \<^verbatim>\<open>*viz.Object\<close> of a capture, by what this repository reads of it: the label of its
  geometry, the centre of its metadata (\<^verbatim>\<open>o.MetaData().Center()\<close>), and the point that
  \<^verbatim>\<open>touch.PCFindHighestInRegion(o, image.Rect(-1000, -1000, 1000, 1000))\<close> returns.
  The two library functions are outside this repository; an object carries their
  values. The objects of a capture are taken to be non-nil.
\<close>

record Object =
  Label :: string
  Center :: Vector
  Highest :: Vector

record VisCapture =
  Objects :: "Object list"

text \<open>The chess library's move, by what the executor reads of it.\<close>

datatype MoveTag = KingSideCastle | QueenSideCastle | Capture | EnPassant | Check

record Move =
  S1 :: string
  S2 :: string
  tags :: "MoveTag list"
  MoveString :: string

definition HasTag :: "Move \<Rightarrow> MoveTag \<Rightarrow> bool" where
  "HasTag m t = (t \<in> set (tags m))"

text \<open>
  Errors are values. Each \<^verbatim>\<open>fmt.Errorf\<close> of the source is a constructor; an error
  returned by a collaborator (arm, gripper, motion service, switch, camera, engine,
  chess library, decoder) is \<open>External\<close> and is passed on unchanged. \<open>Panic\<close> stands for a
  nil dereference, which unwinds through every caller like a returned error but is
  never wrapped.
\<close>

datatype error =
    External string
  | CantFindObject string
  | CantMoveOutOfTheWay error
  | CouldntGrab
  | GetGripperWeird
  | CantGoHome error
  | ErrorReadingFen
  | InvalidFen error
  | NoValidMoves
  | CantHandleCastle Move
  | BadCmd
  | Panic

text \<open>\<^verbatim>\<open>findObject\<close>: the first object whose label starts with \<open>pos\<close>, or nil.\<close>

definition findObject :: "VisCapture \<Rightarrow> string \<Rightarrow> Object option" where
  "findObject data pos = find (\<lambda>ob. HasPrefix (Label ob) pos) (Objects data)"

definition getCenterFor :: "VisCapture \<Rightarrow> string \<Rightarrow> error + Vector" where
  "getCenterFor data pos =
     (if pos = ''-'' then Inr \<lparr>X = 400, Y = -400, Z = 400\<rparr>
      else
        (case findObject data pos of
           None \<Rightarrow> Inl (CantFindObject pos)
         | Some ob \<Rightarrow>
             (let center = Center ob in
              if HasSuffix (Label ob) ''-0'' then Inr center
              else
                (let high = Highest ob in
                 Inr \<lparr>X = (X center + X high) / 2,
                      Y = (Y center + Y high) / 2,
                      Z = Z high\<rparr>))))"

section \<open>Collaborators, state and the trace of calls\<close>

record Orientation =
  OX :: real
  OY :: real
  OZ :: real
  Theta :: real

datatype logmsg =
    InfoMove string string
  | InfoMovePieceCalled string string
  | InfoAlreadyHasPiece string string
  | WarnDidntGrab
  | WarnCantGoHome error
  | DebugGripperRes
  | WarnGrabSaidWeGot

text \<open>
  Every call that leaves the service is an event of the trace: the staging switch, the
  gripper, the arm's \<^verbatim>\<open>DoCommand\<close> (\<^verbatim>\<open>move_gripper\<close>, \<^verbatim>\<open>get_gripper\<close>), the motion
  service, the frame system, the camera, the engine, the position file, the sleeps (in
  milliseconds) and the log lines.
\<close>

datatype event =
    SetPosition nat
  | GripperOpen
  | GripperGrab
  | Sleep nat
  | GetPose
  | ArmMoveGripper real
  | ArmGetGripper
  | MotionMove Vector Orientation
  | CaptureAllFromCamera
  | EngineRun
  | ReadFile
  | WriteFile string
  | Log logmsg

text \<open>The file at \<^verbatim>\<open>s.fenFile\<close>, and \<^verbatim>\<open>os.ReadFile\<close> on it.\<close>

datatype File = NotExist | Unreadable | Contents string

datatype oserror = ErrNotExist | ErrOther

definition os_ReadFile :: "File \<Rightarrow> oserror + string" where
  "os_ReadFile f =
     (case f of NotExist \<Rightarrow> Inl ErrNotExist | Unreadable \<Rightarrow> Inl ErrOther | Contents d \<Rightarrow> Inr d)"

definition IsNotExist :: "oserror + string \<Rightarrow> bool" where
  "IsNotExist r = (case r of Inl ErrNotExist \<Rightarrow> True | _ \<Rightarrow> False)"

text \<open>
  The mutable part of \<^verbatim>\<open>viamChessChess\<close> and of its surroundings: the calls made so far,
  \<^verbatim>\<open>s.startPose\<close> (its \<^verbatim>\<open>Theta\<close>; \<open>None\<close> is nil) and the position file.
\<close>

record state =
  trace :: "event list"
  startPose :: "real option"
  fen_store :: File

text \<open>
  What the collaborators answer. An answer may depend on everything that happened
  before, so each one is a function of the trace up to and including the call. The
  chess library is the game type \<open>'g\<close> with the operations the source calls.
\<close>

record 'g env =
  SetPosition_err :: "event list \<Rightarrow> error option"
  Open_err :: "event list \<Rightarrow> error option"
  GetPose_res :: "event list \<Rightarrow> error + real"
  Grab_res :: "event list \<Rightarrow> error + bool"
  move_gripper_err :: "event list \<Rightarrow> error option"
  get_gripper_res :: "event list \<Rightarrow> error + real option"
  Move_err :: "event list \<Rightarrow> error option"
  Capture_res :: "event list \<Rightarrow> error + VisCapture"
  WriteFile_err :: "event list \<Rightarrow> (error \<times> File) option"
  engine :: bool
  Run_err :: "event list \<Rightarrow> error option"
  BestMove :: "event list \<Rightarrow> Move option"
  NewGame :: 'g
  FEN :: "string \<Rightarrow> error + 'g"
  game_FEN :: "'g \<Rightarrow> string"
  ValidMoves :: "'g \<Rightarrow> Move list"
  game_Move :: "'g \<Rightarrow> Move \<Rightarrow> error + 'g"

definition emit :: "event \<Rightarrow> state \<Rightarrow> state" where
  "emit ev s = s\<lparr>trace := trace s @ [ev]\<rparr>"

section \<open>Homing, gripper and motion primitives\<close>

text \<open>
  \<^verbatim>\<open>goToStart\<close>. \<^verbatim>\<open>s.startPose\<close> is assigned whatever \<^verbatim>\<open>GetPose\<close> returns, also when it
  fails: a nil pose then.
\<close>

definition goToStart :: "'g env \<Rightarrow> state \<Rightarrow> error option \<times> state" where
  "goToStart env s0 =
     (let s1 = emit (SetPosition 2) s0 in
      case SetPosition_err env (trace s1) of
        Some e \<Rightarrow> (Some e, s1)
      | None \<Rightarrow>
          (let s2 = emit GripperOpen s1 in
           case Open_err env (trace s2) of
             Some e \<Rightarrow> (Some e, s2)
           | None \<Rightarrow>
               (let s3 = emit (Sleep 1000) s2;
                    s4 = emit GetPose s3
                in case GetPose_res env (trace s4) of
                     Inl e \<Rightarrow> (Some e, s4\<lparr>startPose := None\<rparr>)
                   | Inr th \<Rightarrow> (None, s4\<lparr>startPose := Some th\<rparr>))))"

definition setupGripper :: "'g env \<Rightarrow> state \<Rightarrow> error option \<times> state" where
  "setupGripper env s0 =
     (let s1 = emit (ArmMoveGripper 450.0) s0 in (move_gripper_err env (trace s1), s1))"

definition moveGripper :: "'g env \<Rightarrow> Vector \<Rightarrow> state \<Rightarrow> error option \<times> state" where
  "moveGripper env p s0 =
     (case startPose s0 of
        None \<Rightarrow> (Some Panic, s0)
      | Some th \<Rightarrow>
          (let orientation = \<lparr>OX = 0, OY = 0, OZ = -1, Theta = th\<rparr>;
               orientation = (if X p > 300
                              then orientation\<lparr>OX := (X p - 300) / 1000\<rparr>
                              else orientation);
               s1 = emit (MotionMove p orientation) s0
           in (Move_err env (trace s1), s1)))"

definition myGrab :: "'g env \<Rightarrow> state \<Rightarrow> (error + bool) \<times> state" where
  "myGrab env s0 =
     (let s1 = emit GripperGrab s0 in
      case Grab_res env (trace s1) of
        Inl e \<Rightarrow> (Inl e, s1)
      | Inr got \<Rightarrow>
          (let s2 = emit (Sleep 300) s1;
               s3 = emit ArmGetGripper s2
           in case get_gripper_res env (trace s3) of
                Inl e \<Rightarrow> (Inl e, s3)
              | Inr res \<Rightarrow>
                  (case res of
                     None \<Rightarrow> (Inl GetGripperWeird, s3)
                   | Some p \<Rightarrow>
                       (let s4 = emit (Log DebugGripperRes) s3 in
                        if p < 20 \<and> got
                        then (Inr False, emit (Log WarnGrabSaidWeGot) s4)
                        else (Inr got, s4)))))"

section \<open>The move executor\<close>

definition safeZ :: real where
  "safeZ = 200.0"

text \<open>
  The grasp-retry loop of \<^verbatim>\<open>movePiece\<close> (\<^verbatim>\<open>for { ... }\<close>), entered with the current
  \<^verbatim>\<open>useZ\<close>. It leaves through \<^verbatim>\<open>break\<close> with the height at which the grasp was
  accepted, or through one of its \<^verbatim>\<open>return\<close>s with an error.
\<close>

function grabLoop :: "'g env \<Rightarrow> Vector \<Rightarrow> real \<Rightarrow> state \<Rightarrow> (error + real) \<times> state" where
  "grabLoop env center useZ s0 =
     (case moveGripper env \<lparr>X = X center, Y = Y center, Z = useZ\<rparr> s0 of
        (Some e, s1) \<Rightarrow> (Inl e, s1)
      | (None, s1) \<Rightarrow>
          (case myGrab env s1 of
             (Inl e, s2) \<Rightarrow> (Inl e, s2)
           | (Inr got, s2) \<Rightarrow>
               if got then (Inr useZ, s2)
               else
                 (let s3 = emit (Log WarnDidntGrab) s2 in
                  if useZ - 10 < 0 then (Inl CouldntGrab, s3)
                  else
                    (case setupGripper env s3 of
                       (Some e, s4) \<Rightarrow> (Inl e, s4)
                     | (None, s4) \<Rightarrow> grabLoop env center (useZ - 10) s4))))"
  by pat_completeness auto
termination
proof (relation "measure (\<lambda>(env, center, useZ, s0). nat \<lfloor>useZ\<rfloor>)")
  show "wf (measure (\<lambda>(env :: 'g env, center :: Vector, useZ :: real, s0 :: state). nat \<lfloor>useZ\<rfloor>))"
    by simp
next
  fix env :: "'g env" and center :: Vector and useZ :: real and s0 s1 s2 s3 s4 :: state
    and x y xa ya xb and x2 :: bool and x2a
  assume "\<not> useZ - 10 < 0"
  then have "\<lfloor>useZ - 10\<rfloor> = \<lfloor>useZ\<rfloor> - 10" and "10 \<le> \<lfloor>useZ\<rfloor>"
    by linarith+
  then show "((env, center, useZ - 10, s4), env, center, useZ, s0)
      \<in> measure (\<lambda>(env, center, useZ, s0). nat \<lfloor>useZ\<rfloor>)"
    by simp
qed

declare grabLoop.simps [simp del]

text \<open>
  The first block of \<^verbatim>\<open>movePiece\<close>: resolve \<open>from\<close>, open the gripper, travel above the
  square, run the grasp loop, lift. It hands \<^verbatim>\<open>useZ\<close> on to the second block.
\<close>

definition pickPhase :: "'g env \<Rightarrow> VisCapture \<Rightarrow> string \<Rightarrow> state \<Rightarrow> (error + real) \<times> state" where
  "pickPhase env data from s0 =
     (case getCenterFor data from of
        Inl e \<Rightarrow> (Inl e, s0)
      | Inr center \<Rightarrow>
          (case setupGripper env s0 of
             (Some e, s1) \<Rightarrow> (Inl e, s1)
           | (None, s1) \<Rightarrow>
               (case moveGripper env \<lparr>X = X center, Y = Y center, Z = safeZ\<rparr> s1 of
                  (Some e, s2) \<Rightarrow> (Inl e, s2)
                | (None, s2) \<Rightarrow>
                    (case grabLoop env center (Z center) s2 of
                       (Inl e, s3) \<Rightarrow> (Inl e, s3)
                     | (Inr useZ, s3) \<Rightarrow>
                         (case moveGripper env \<lparr>X = X center, Y = Y center, Z = safeZ\<rparr> s3 of
                            (Some e, s4) \<Rightarrow> (Inl e, s4)
                          | (None, s4) \<Rightarrow> (Inr useZ, s4))))))"

text \<open>The second block: resolve \<open>to\<close>, travel, descend, release, lift.\<close>

definition placePhase :: "'g env \<Rightarrow> VisCapture \<Rightarrow> string \<Rightarrow> real \<Rightarrow> state \<Rightarrow> error option \<times> state" where
  "placePhase env data to useZ0 s0 =
     (case getCenterFor data to of
        Inl e \<Rightarrow> (Some e, s0)
      | Inr center \<Rightarrow>
          (case moveGripper env \<lparr>X = X center, Y = Y center, Z = safeZ\<rparr> s0 of
             (Some e, s1) \<Rightarrow> (Some e, s1)
           | (None, s1) \<Rightarrow>
               (let useZ = (if to = ''-'' then 300 else useZ0) in
                case moveGripper env \<lparr>X = X center, Y = Y center, Z = useZ\<rparr> s1 of
                  (Some e, s2) \<Rightarrow> (Some e, s2)
                | (None, s2) \<Rightarrow>
                    (case setupGripper env s2 of
                       (Some e, s3) \<Rightarrow> (Some e, s3)
                     | (None, s3) \<Rightarrow>
                         moveGripper env \<lparr>X = X center, Y = Y center, Z = safeZ\<rparr> s3))))"

text \<open>\<^verbatim>\<open>fmt.Errorf("can't move piece out of the way: %w", err)\<close>; a panic is not an error
  value and passes unwrapped.\<close>

definition out_of_the_way :: "error \<Rightarrow> error" where
  "out_of_the_way e = (if e = Panic then Panic else CantMoveOutOfTheWay e)"

text \<open>
  \<^verbatim>\<open>movePiece\<close>. The recursive call has the destination \<^verbatim>\<open>"-"\<close>, for which the check of
  the destination is skipped.
\<close>

function movePiece :: "'g env \<Rightarrow> VisCapture \<Rightarrow> string \<Rightarrow> string \<Rightarrow> state \<Rightarrow> error option \<times> state" where
  "movePiece env data from to s0 =
     (let s1 = emit (Log (InfoMovePieceCalled from to)) s0 in
      case
        (if to \<noteq> ''-'' then
           (case findObject data to of
              None \<Rightarrow> (Some (CantFindObject to), s1)
            | Some ob \<Rightarrow>
                if \<not> HasSuffix (Label ob) ''-0'' then
                  (let s2 = emit (Log (InfoAlreadyHasPiece to (Label ob))) s1 in
                   case movePiece env data to ''-'' s2 of
                     (Some e, s3) \<Rightarrow> (Some (out_of_the_way e), s3)
                   | (None, s3) \<Rightarrow> (None, s3))
                else (None, s1))
         else (None, s1))
      of
        (Some e, s4) \<Rightarrow> (Some e, s4)
      | (None, s4) \<Rightarrow>
          (case pickPhase env data from s4 of
             (Inl e, s5) \<Rightarrow> (Some e, s5)
           | (Inr useZ, s5) \<Rightarrow> placePhase env data to useZ s5))"
  by pat_completeness auto
termination
  by (relation "measure (\<lambda>(env, data, from, to, s0). if to = ''-'' then 0 else 1)") auto

declare movePiece.simps [simp del]

section \<open>The persisted position and move selection\<close>

definition getGame :: "'g env \<Rightarrow> state \<Rightarrow> (error + 'g) \<times> state" where
  "getGame env s0 =
     (let s1 = emit ReadFile s0;
          r = os_ReadFile (fen_store s1)
      in if IsNotExist r then (Inr (NewGame env), s1)
         else
           (case r of
              Inl err \<Rightarrow> (Inl ErrorReadingFen, s1)
            | Inr data \<Rightarrow>
                (case FEN env data of
                   Inl err \<Rightarrow> (Inl (InvalidFen err), s1)
                 | Inr f \<Rightarrow> (Inr f, s1))))"

text \<open>
  \<^verbatim>\<open>saveGame\<close>: \<^verbatim>\<open>os.WriteFile\<close> of the game's FEN. When the write fails, the
  collaborator says what is left in the file.
\<close>

definition saveGame :: "'g env \<Rightarrow> 'g \<Rightarrow> state \<Rightarrow> error option \<times> state" where
  "saveGame env g s0 =
     (let s1 = emit (WriteFile (game_FEN env g)) s0 in
      case WriteFile_err env (trace s1) of
        None \<Rightarrow> (None, s1\<lparr>fen_store := Contents (game_FEN env g)\<rparr>)
      | Some (e, left) \<Rightarrow> (Some e, s1\<lparr>fen_store := left\<rparr>))"

text \<open>
  \<^verbatim>\<open>pickMove\<close> returns a \<^verbatim>\<open>*chess.Move\<close>; the engine's \<^verbatim>\<open>BestMove\<close> may be nil
  (\<open>None\<close>).
\<close>

definition pickMove :: "'g env \<Rightarrow> 'g \<Rightarrow> state \<Rightarrow> (error + Move option) \<times> state" where
  "pickMove env game s0 =
     (if \<not> engine env then
        (case ValidMoves env game of
           [] \<Rightarrow> (Inl NoValidMoves, s0)
         | m # rest \<Rightarrow> (Inr (Some m), s0))
      else
        (let s1 = emit EngineRun s0 in
         case Run_err env (trace s1) of
           Some e \<Rightarrow> (Inl e, s1)
         | None \<Rightarrow> (Inr (BestMove env (trace s1)), s1)))"

definition makeAMove :: "'g env \<Rightarrow> state \<Rightarrow> (error + Move) \<times> state" where
  "makeAMove env s0 =
     (case goToStart env s0 of
        (Some e, s1) \<Rightarrow> (Inl (CantGoHome e), s1)
      | (None, s1) \<Rightarrow>
          (case getGame env s1 of
             (Inl e, s2) \<Rightarrow> (Inl e, s2)
           | (Inr game, s2) \<Rightarrow>
               (case pickMove env game s2 of
                  (Inl e, s3) \<Rightarrow> (Inl e, s3)
                | (Inr None, s3) \<Rightarrow> (Inl Panic, s3)
                | (Inr (Some m), s3) \<Rightarrow>
                    if HasTag m KingSideCastle \<or> HasTag m QueenSideCastle
                    then (Inl (CantHandleCastle m), s3)
                    else
                      (let s4 = emit CaptureAllFromCamera s3 in
                       case Capture_res env (trace s4) of
                         Inl e \<Rightarrow> (Inl e, s4)
                       | Inr all \<Rightarrow>
                           (case movePiece env all (S1 m) (S2 m) s4 of
                              (Some e, s5) \<Rightarrow> (Inl e, s5)
                            | (None, s5) \<Rightarrow>
                                (case game_Move env game m of
                                   Inl e \<Rightarrow> (Inl e, s5)
                                 | Inr game' \<Rightarrow>
                                     (case saveGame env game' s5 of
                                        (Some e, s6) \<Rightarrow> (Inl e, s6)
                                      | (None, s6) \<Rightarrow> (Inr m, s6))))))))"

section \<open>The command surface\<close>

record MoveCmd =
  From :: string
  To :: string
  N :: int

record cmdStruct =
  Move :: MoveCmd
  Go :: int

text \<open>
  The body of \<^verbatim>\<open>for x := range cmd.Move.N\<close>, over the values of \<open>x\<close> still to come.
\<close>

fun manualLoop :: "'g env \<Rightarrow> MoveCmd \<Rightarrow> nat list \<Rightarrow> state \<Rightarrow> error option \<times> state" where
  "manualLoop env mc [] s0 = (None, s0)"
| "manualLoop env mc (x # xs) s0 =
     (case goToStart env s0 of
        (Some e, s1) \<Rightarrow> (Some e, s1)
      | (None, s1) \<Rightarrow>
          (let from = (if x mod 2 = 1 then To mc else From mc);
               to = (if x mod 2 = 1 then From mc else To mc);
               s2 = emit CaptureAllFromCamera s1
           in case Capture_res env (trace s2) of
                Inl e \<Rightarrow> (Some e, s2)
              | Inr all \<Rightarrow>
                  (case movePiece env all from to s2 of
                     (Some e, s3) \<Rightarrow> (Some e, s3)
                   | (None, s3) \<Rightarrow> manualLoop env mc xs s3)))"

text \<open>
  \<^verbatim>\<open>for range cmd.Go\<close> with the iterations still to run and the last move made
  (\<^verbatim>\<open>var m *chess.Move\<close>, nil at first).
\<close>

fun playLoop :: "'g env \<Rightarrow> nat \<Rightarrow> Move option \<Rightarrow> state \<Rightarrow> (error + Move option) \<times> state" where
  "playLoop env 0 m s0 = (Inr m, s0)"
| "playLoop env (Suc k) m s0 =
     (case makeAMove env s0 of
        (Inl e, s1) \<Rightarrow> (Inl e, s1)
      | (Inr m', s1) \<Rightarrow> playLoop env k (Some m') s1)"

text \<open>
  \<^verbatim>\<open>DoCommand\<close> from \<^verbatim>\<open>var cmd cmdStruct\<close> to its last \<^verbatim>\<open>return\<close>, without the deferred
  calls. \<open>decode\<close> is \<^verbatim>\<open>mapstructure.Decode\<close> into a \<^verbatim>\<open>cmdStruct\<close>. The result is
  \<open>None\<close> for a nil map and \<open>Some t\<close> for \<^verbatim>\<open>{"move": t}\<close>.
\<close>

definition DoCommand_body ::
  "('c \<Rightarrow> error + cmdStruct) \<Rightarrow> 'g env \<Rightarrow> 'c \<Rightarrow> state \<Rightarrow> (error + string option) \<times> state" where
  "DoCommand_body decode env cmdMap s0 =
     (case decode cmdMap of
        Inl e \<Rightarrow> (Inl e, s0)
      | Inr cmd \<Rightarrow>
          if To (Move cmd) \<noteq> '''' \<and> From (Move cmd) \<noteq> '''' then
            (let s1 = emit (Log (InfoMove (From (Move cmd)) (To (Move cmd)))) s0 in
             case manualLoop env (Move cmd) [0..<nat (N (Move cmd))] s1 of
               (Some e, s2) \<Rightarrow> (Inl e, s2)
             | (None, s2) \<Rightarrow> (Inr None, s2))
          else if Go cmd > 0 then
            (case playLoop env (nat (Go cmd)) None s0 of
               (Inl e, s1) \<Rightarrow> (Inl e, s1)
             | (Inr None, s1) \<Rightarrow> (Inl Panic, s1)
             | (Inr (Some m), s1) \<Rightarrow> (Inr (Some (MoveString m)), s1))
          else (Inl BadCmd, s0))"

text \<open>
  \<^verbatim>\<open>DoCommand\<close>: the body, then the deferred function (\<^verbatim>\<open>goToStart\<close>, its error only
  logged). Deferred calls run when the body returns and when it panics. The mutex
  serialises invocations; one invocation is modelled.
\<close>

definition DoCommand ::
  "('c \<Rightarrow> error + cmdStruct) \<Rightarrow> 'g env \<Rightarrow> 'c \<Rightarrow> state \<Rightarrow> (error + string option) \<times> state" where
  "DoCommand decode env cmdMap s0 =
     (case DoCommand_body decode env cmdMap s0 of
        (res, s1) \<Rightarrow>
          (case goToStart env s1 of
             (Some err, s2) \<Rightarrow> (res, emit (Log (WarnCantGoHome err)) s2)
           | (None, s2) \<Rightarrow> (res, s2)))"

section \<open>Observations used in the statements\<close>

subsection \<open>Of the classifier\<close>

text \<open>The points the callback counts, in the order of the iteration.\<close>

definition qualifying :: "PointCloud \<Rightarrow> (Vector \<times> Data option) list" where
  "qualifying pc = filter (counted (MaxZ pc - minPieceSize)) (points pc)"

text \<open>The channels of a point as \<^verbatim>\<open>float64(r)\<close>, \<^verbatim>\<open>float64(g)\<close>, \<^verbatim>\<open>float64(b)\<close>.\<close>

definition chanR :: "Vector \<times> Data option \<Rightarrow> real" where
  "chanR pd = (case snd pd of None \<Rightarrow> 0 | Some c \<Rightarrow> real (unat (R255 c)))"

definition chanG :: "Vector \<times> Data option \<Rightarrow> real" where
  "chanG pd = (case snd pd of None \<Rightarrow> 0 | Some c \<Rightarrow> real (unat (G255 c)))"

definition chanB :: "Vector \<times> Data option \<Rightarrow> real" where
  "chanB pd = (case snd pd of None \<Rightarrow> 0 | Some c \<Rightarrow> real (unat (B255 c)))"

text \<open>
  The mean brightness of a list of points as the specification words it: the mean of the
  three averaged colour channels.
\<close>

definition mean_brightness :: "(Vector \<times> Data option) list \<Rightarrow> real" where
  "mean_brightness qs =
     (sum_list (map chanR qs) / real (length qs)
      + sum_list (map chanG qs) / real (length qs)
      + sum_list (map chanB qs) / real (length qs)) / 3"

text \<open>
  The selection as the specification words it: a point with a valid colour sample whose
  height lies within the band of 20 units below the region's maximum height.
\<close>

definition in_top_band :: "PointCloud \<Rightarrow> Vector \<times> Data option \<Rightarrow> bool" where
  "in_top_band pc pd =
     (case pd of (p, d) \<Rightarrow>
        (case d of
           None \<Rightarrow> False
         | Some c \<Rightarrow> HasColor c \<and> MaxZ pc - 20 \<le> Z p \<and> Z p \<le> MaxZ pc))"

text \<open>
  The metadata of a cloud as the point cloud library keeps it: \<^verbatim>\<open>MaxZ\<close> is the greatest
  \<open>Z\<close> among the points.
\<close>

definition metadata_consistent :: "PointCloud \<Rightarrow> bool" where
  "metadata_consistent pc =
     (list_ex (\<lambda>pd. Z (fst pd) = MaxZ pc) (points pc) \<and>
      list_all (\<lambda>pd. Z (fst pd) \<le> MaxZ pc) (points pc))"

text \<open>
  Sample clouds, of grey points of a given height and a given value of all three
  channels, all with the maximum height 100: eleven white points at height 50 and a white
  point at the top; the same with a black point at the top; the white point at the top
  alone; eleven points of value 128 at height 50 and eleven at the top.
\<close>

definition grey :: "real \<Rightarrow> 8 word \<Rightarrow> Vector \<times> Data option" where
  "grey z v = (\<lparr>X = 0, Y = 0, Z = z\<rparr>, Some \<lparr>HasColor = True, R255 = v, G255 = v, B255 = v\<rparr>)"

definition cloud_low_white :: PointCloud where
  "cloud_low_white = \<lparr>MaxZ = 100, points = replicate 11 (grey 50 255) @ [grey 100 255]\<rparr>"


definition cloud_low_white_dark_top :: PointCloud where
  "cloud_low_white_dark_top =
     \<lparr>MaxZ = 100, points = replicate 11 (grey 50 255) @ [grey 100 0]\<rparr>"

definition cloud_top_only :: PointCloud where
  "cloud_top_only = \<lparr>MaxZ = 100, points = [grey 100 255]\<rparr>"

subsection \<open>Of traces\<close>

text \<open>
  The events a call issued: those of the trace after it that were not in the trace
  before it.
\<close>

definition issued :: "state \<Rightarrow> state \<Rightarrow> event list" where
  "issued s s' = drop (length (trace s)) (trace s')"

text \<open>
  The events the two blocks of \<^verbatim>\<open>movePiece\<close> can issue: arm and gripper commands, motion
  requests, the settle delay and the log lines of the grasp loop.
\<close>

fun executor_event :: "event \<Rightarrow> bool" where
  "executor_event (ArmMoveGripper w) = True"
| "executor_event ArmGetGripper = True"
| "executor_event (MotionMove p a) = True"
| "executor_event GripperGrab = True"
| "executor_event (Sleep n) = True"
| "executor_event (Log WarnDidntGrab) = True"
| "executor_event (Log DebugGripperRes) = True"
| "executor_event (Log WarnGrabSaidWeGot) = True"
| "executor_event e = False"

text \<open>
  The events \<^verbatim>\<open>movePiece\<close> can issue: those of its two blocks and its own two log lines.
\<close>

fun movePiece_event :: "event \<Rightarrow> bool" where
  "movePiece_event (Log (InfoMovePieceCalled a b)) = True"
| "movePiece_event (Log (InfoAlreadyHasPiece a b)) = True"
| "movePiece_event e = executor_event e"

text \<open>
  The events \<^verbatim>\<open>goToStart\<close> can issue.
\<close>

fun homing_event :: "event \<Rightarrow> bool" where
  "homing_event (SetPosition n) = True"
| "homing_event GripperOpen = True"
| "homing_event (Sleep n) = True"
| "homing_event GetPose = True"
| "homing_event e = False"

text \<open>
  The events that touch the position file.
\<close>

fun file_event :: "event \<Rightarrow> bool" where
  "file_event ReadFile = True"
| "file_event (WriteFile d) = True"
| "file_event e = False"

text \<open>
  The invocations of \<^verbatim>\<open>movePiece\<close> recorded in a list of events, as pairs (from, to) in the
  order of the calls: \<^verbatim>\<open>movePiece\<close> logs each invocation on entry.
\<close>

fun calls :: "event list \<Rightarrow> (string \<times> string) list" where
  "calls [] = []"
| "calls (Log (InfoMovePieceCalled a b) # es) = (a, b) # calls es"
| "calls (e # es) = calls es"

text \<open>
  The heights of the motion requests in a list of events, in order, and the number of
  grasp attempts in it.
\<close>

fun descents :: "event list \<Rightarrow> real list" where
  "descents [] = []"
| "descents (MotionMove p a # es) = Z p # descents es"
| "descents (e # es) = descents es"

fun grasps :: "event list \<Rightarrow> nat" where
  "grasps [] = 0"
| "grasps (GripperGrab # es) = Suc (grasps es)"
| "grasps (e # es) = grasps es"

text \<open>
  The main sequence of \<^verbatim>\<open>movePiece\<close>: its first block, then its second.
\<close>

definition pickThenPlace :: "'g env \<Rightarrow> VisCapture \<Rightarrow> string \<Rightarrow> string \<Rightarrow> state \<Rightarrow> error option \<times> state" where
  "pickThenPlace env data from to s0 =
     (case pickPhase env data from s0 of
        (Inl e, s1) \<Rightarrow> (Some e, s1)
      | (Inr useZ, s1) \<Rightarrow> placePhase env data to useZ s1)"

text \<open>
  Two relations between the state before and after a call, used in the proofs: the call
  only appended events of a given kind and left the position file alone; the call only
  appended events with given motion heights and a given number of grasp attempts and
  left \<^verbatim>\<open>s.startPose\<close> alone.
\<close>

definition adds :: "(event \<Rightarrow> bool) \<Rightarrow> state \<Rightarrow> state \<Rightarrow> bool" where
  "adds P s s' =
     (\<exists>evs. trace s' = trace s @ evs \<and> list_all P evs \<and> fen_store s' = fen_store s)"

definition runs :: "state \<Rightarrow> state \<Rightarrow> real list \<Rightarrow> nat \<Rightarrow> bool" where
  "runs s s' ds g =
     (\<exists>evs. trace s' = trace s @ evs \<and> descents evs = ds \<and> grasps evs = g \<and>
            startPose s' = startPose s)"

subsection \<open>Sample moves, snapshots, collaborators and commands\<close>

text \<open>
  Two moves, a snapshot with a white piece on e2, an empty e4 and a black piece on d5,
  collaborators that never fail (the gripper reports a grasp with aperture 30), and a
  state just after homing.
\<close>

definition e2e4 :: Move where
  "e2e4 = \<lparr>S1 = ''e2'', S2 = ''e4'', tags = [], MoveString = ''e2e4''\<rparr>"

definition short_castle :: Move where
  "short_castle = \<lparr>S1 = ''e1'', S2 = ''g1'', tags = [KingSideCastle], MoveString = ''e1g1''\<rparr>"

definition board :: VisCapture where
  "board = \<lparr>Objects =
     [\<lparr>Label = ''e2-1'', Center = \<lparr>X = 100, Y = 50, Z = 5\<rparr>, Highest = \<lparr>X = 104, Y = 52, Z = 35\<rparr>\<rparr>,
      \<lparr>Label = ''e4-0'', Center = \<lparr>X = 100, Y = 150, Z = 4\<rparr>, Highest = \<lparr>X = 90, Y = 140, Z = 6\<rparr>\<rparr>,
      \<lparr>Label = ''d5-2'', Center = \<lparr>X = 150, Y = 200, Z = 5\<rparr>, Highest = \<lparr>X = 152, Y = 204, Z = 25\<rparr>\<rparr>]\<rparr>"

definition calm :: "string env" where
  "calm =
     \<lparr>SetPosition_err = (\<lambda>h. None),
      Open_err = (\<lambda>h. None),
      GetPose_res = (\<lambda>h. Inr 0),
      Grab_res = (\<lambda>h. Inr True),
      move_gripper_err = (\<lambda>h. None),
      get_gripper_res = (\<lambda>h. Inr (Some 30)),
      Move_err = (\<lambda>h. None),
      Capture_res = (\<lambda>h. Inr board),
      WriteFile_err = (\<lambda>h. None),
      engine = False,
      Run_err = (\<lambda>h. None),
      BestMove = (\<lambda>h. None),
      NewGame = ''start'',
      FEN = (\<lambda>d. if d = '''' then Inl (External ''empty fen'') else Inr d),
      game_FEN = (\<lambda>g. g),
      ValidMoves = (\<lambda>g. [e2e4]),
      game_Move = (\<lambda>g m. Inr (g @ '' '' @ MoveString m))\<rparr>"

definition homed :: state where
  "homed = \<lparr>trace = [], startPose = Some 0, fen_store = NotExist\<rparr>"

text \<open>
  Variations: the first legal move is a castling move; the gripper never reports a
  grasp; the aperture read back is exactly 20; it is 5; it is 5 for the first three
  readings and 25 from the fourth on; the gripper cannot open; a snapshot whose piece on
  e2 has its top at height -5; and three decoded commands.
\<close>

definition castling :: "string env" where
  "castling = calm\<lparr>ValidMoves := (\<lambda>g. [short_castle])\<rparr>"

definition never_grasps :: "string env" where
  "never_grasps = calm\<lparr>Grab_res := (\<lambda>h. Inr False)\<rparr>"

definition aperture20 :: "string env" where
  "aperture20 = calm\<lparr>get_gripper_res := (\<lambda>h. Inr (Some 20))\<rparr>"

definition aperture5 :: "string env" where
  "aperture5 = calm\<lparr>get_gripper_res := (\<lambda>h. Inr (Some 5))\<rparr>"

definition fourth_time_lucky :: "string env" where
  "fourth_time_lucky =
     calm\<lparr>get_gripper_res :=
            (\<lambda>h. if length (filter (\<lambda>e. e = ArmGetGripper) h) \<le> 3
                 then Inr (Some 5) else Inr (Some 25))\<rparr>"

definition stuck_gripper :: "string env" where
  "stuck_gripper = calm\<lparr>Open_err := (\<lambda>h. Some (External ''gripper stuck''))\<rparr>"


definition back_and_forth :: cmdStruct where
  "back_and_forth = \<lparr>Move = \<lparr>From = ''e2'', To = ''e4'', N = 2\<rparr>, Go = 0\<rparr>"

definition play_once :: cmdStruct where
  "play_once = \<lparr>Move = \<lparr>From = '''', To = '''', N = 0\<rparr>, Go = 1\<rparr>"

definition no_command :: cmdStruct where
  "no_command = \<lparr>Move = \<lparr>From = '''', To = '''', N = 0\<rparr>, Go = 0\<rparr>"

section \<open>Properties of the classifier\<close>

lemma counted_iff:
  "counted m (p, d) = (\<exists>c. d = Some c \<and> HasColor c \<and> Z p < m)"
  by (cases d) (auto simp: counted_def)

lemma visit_counted:
  "visit m t pd =
     (if counted m pd
      then \<lparr>totalR = totalR t + chanR pd, totalG = totalG t + chanG pd,
            totalB = totalB t + chanB pd, count = count t + 1\<rparr>
      else t)"
  by (cases pd) (simp add: visit_def counted_def chanR_def chanG_def chanB_def split: option.split)

lemma foldl_visit:
  "foldl (visit m) t xs =
     \<lparr>totalR = totalR t + sum_list (map chanR (filter (counted m) xs)),
      totalG = totalG t + sum_list (map chanG (filter (counted m) xs)),
      totalB = totalB t + sum_list (map chanB (filter (counted m) xs)),
      count = count t + int (length (filter (counted m) xs))\<rparr>"
proof (induction xs arbitrary: t)
  case Nil
  show ?case by simp
next
  case (Cons pd xs)
  show ?case
    by (simp only: foldl_Cons Cons.IH) (simp add: visit_counted)
qed

lemma accumulate_qualifying:
  "accumulate pc =
     \<lparr>totalR = sum_list (map chanR (qualifying pc)),
      totalG = sum_list (map chanG (qualifying pc)),
      totalB = sum_list (map chanB (qualifying pc)),
      count = int (length (qualifying pc))\<rparr>"
  by (simp add: accumulate_def foldl_visit qualifying_def zero_totals_def)

lemma brightness_accumulate:
  "brightness (accumulate pc) = mean_brightness (qualifying pc)"
  by (simp add: accumulate_qualifying brightness_def mean_brightness_def)

lemma estimatePieceColor_qualifying:
  "estimatePieceColor pc =
     (if length (qualifying pc) \<le> 10 then 0
      else if mean_brightness (qualifying pc) > 128 then 1 else 2)"
  unfolding estimatePieceColor_def Let_def brightness_accumulate
  by (simp add: accumulate_qualifying)

lemma qualifying_low_white: "qualifying cloud_low_white = replicate 11 (grey 50 255)"
  by (simp add: qualifying_def cloud_low_white_def counted_def grey_def minPieceSize_def)

lemma mean_brightness_replicate:
  "0 < n \<Longrightarrow> mean_brightness (replicate n (grey z v)) = real (unat v)"
  by (simp add: mean_brightness_def sum_list_replicate chanR_def chanG_def chanB_def grey_def)

text \<open>
  Claim C1, as amended. The classifier computes its count and its colour average from
  exactly the points that carry a colour sample and whose \<open>Z\<close> is strictly less than
  \<open>MaxZ - 20\<close>: they are the list \<open>qualifying\<close>, and two clouds with the same such
  points get the same classification. The points within 20 units of the maximum
  contribute nothing.
\<close>

theorem estimatePieceColor_uses_points_below_band:
  "qualifying pc =
     filter (\<lambda>(p, d). \<exists>c. d = Some c \<and> HasColor c \<and> Z p < MaxZ pc - 20) (points pc) \<and>
   (qualifying pc' = qualifying pc \<longrightarrow> estimatePieceColor pc' = estimatePieceColor pc)"
proof -
  have "counted (MaxZ pc - minPieceSize) =
      (\<lambda>(p, d). \<exists>c. d = Some c \<and> HasColor c \<and> Z p < MaxZ pc - 20)"
    by (rule ext) (auto simp: counted_iff minPieceSize_def)
  then show ?thesis
    by (simp add: qualifying_def estimatePieceColor_qualifying)
qed

text \<open>
  An instance: the two sample clouds that differ only in the colour of the point at the
  top have the same counted points and the same classification.
\<close>

theorem estimatePieceColor_uses_points_below_band_witness:
  "metadata_consistent cloud_low_white \<and> metadata_consistent cloud_low_white_dark_top \<and>
   qualifying cloud_low_white_dark_top = qualifying cloud_low_white \<and>
   estimatePieceColor cloud_low_white_dark_top = estimatePieceColor cloud_low_white"
proof -
  have q: "qualifying cloud_low_white_dark_top = qualifying cloud_low_white"
    by (simp add: qualifying_def cloud_low_white_def cloud_low_white_dark_top_def counted_def
        grey_def minPieceSize_def)
  have "metadata_consistent cloud_low_white" "metadata_consistent cloud_low_white_dark_top"
    by (simp_all add: metadata_consistent_def cloud_low_white_def cloud_low_white_dark_top_def
        grey_def list_all_iff)
  with q estimatePieceColor_uses_points_below_band [of cloud_low_white cloud_low_white_dark_top]
  show ?thesis by simp
qed

text \<open>
  Claim C1 as stated fails. The first cloud has its maximum height at 100 and eleven
  white points at height 50, more than 20 units below the maximum; its only point in
  the band of 20 units below the maximum is the one at height 100. It is classified
  White (1). The second cloud is the first without the points below the band, and is
  classified blank (0). So the points below the band decide the classification.
\<close>

theorem estimatePieceColor_top_band_counterexample:
  "metadata_consistent cloud_low_white \<and> metadata_consistent cloud_top_only \<and>
   estimatePieceColor cloud_low_white = 1 \<and>
   filter (in_top_band cloud_low_white) (points cloud_low_white) = points cloud_top_only \<and>
   MaxZ cloud_top_only = MaxZ cloud_low_white \<and>
   estimatePieceColor cloud_top_only = 0"
proof -
  have "metadata_consistent cloud_low_white" "metadata_consistent cloud_top_only"
    by (simp_all add: metadata_consistent_def cloud_low_white_def cloud_top_only_def grey_def
        list_all_iff)
  moreover have "estimatePieceColor cloud_low_white = 1"
    by (simp add: estimatePieceColor_qualifying qualifying_low_white mean_brightness_replicate)
  moreover have "filter (in_top_band cloud_low_white) (points cloud_low_white) = points cloud_top_only"
    by (simp add: in_top_band_def cloud_low_white_def cloud_top_only_def grey_def)
  moreover have "MaxZ cloud_top_only = MaxZ cloud_low_white"
    by (simp add: cloud_low_white_def cloud_top_only_def)
  moreover have "qualifying cloud_top_only = []"
    by (simp add: qualifying_def cloud_top_only_def counted_def grey_def minPieceSize_def)
  then have "estimatePieceColor cloud_top_only = 0"
    by (simp add: estimatePieceColor_qualifying)
  ultimately show ?thesis by simp
qed






section \<open>How the calls extend the trace\<close>

lemma emit_simps [simp]:
  "trace (emit ev s) = trace s @ [ev]"
  "startPose (emit ev s) = startPose s"
  "fen_store (emit ev s) = fen_store s"
  by (simp_all add: emit_def)

lemma adds_refl [simp]: "adds P s s"
  by (simp add: adds_def)

lemma adds_trans: "adds P s s' \<Longrightarrow> adds P s' s'' \<Longrightarrow> adds P s s''"
  by (auto simp: adds_def)

lemma adds_emit: "adds P s s' \<Longrightarrow> P ev \<Longrightarrow> adds P s (emit ev s')"
  by (auto simp: adds_def)

lemma adds_startPose [simp]: "adds P s (s'\<lparr>startPose := x\<rparr>) = adds P s s'"
  by (simp add: adds_def)

lemma adds_mono: "adds P s s' \<Longrightarrow> (\<And>e. P e \<Longrightarrow> Q e) \<Longrightarrow> adds Q s s'"
  by (auto simp: adds_def list_all_iff)

lemma adds_issued:
  "adds P s s' \<Longrightarrow> trace s' = trace s @ issued s s' \<and> list_all P (issued s s') \<and> fen_store s' = fen_store s"
  by (auto simp: adds_def issued_def)

lemma setupGripper_adds: "adds executor_event s (snd (setupGripper env s))"
  by (simp add: setupGripper_def Let_def adds_emit)

lemma moveGripper_adds: "adds executor_event s (snd (moveGripper env p s))"
  by (simp add: moveGripper_def Let_def adds_emit split: option.split)

lemma myGrab_adds: "adds executor_event s (snd (myGrab env s))"
  by (simp add: myGrab_def Let_def adds_emit split: option.split sum.split)

lemma grabLoop_adds: "adds executor_event s (snd (grabLoop env c z s))"
proof (induction env c z s rule: grabLoop.induct)
  case (1 env center useZ s0)
  let ?p = "\<lparr>X = X center, Y = Y center, Z = useZ\<rparr>"
  obtain r1 s1 where m: "moveGripper env ?p s0 = (r1, s1)" by (cases "moveGripper env ?p s0")
  have a1: "adds executor_event s0 s1" using moveGripper_adds [of s0 env ?p] m by simp
  show ?case
  proof (cases r1)
    case (Some e)
    with m a1 show ?thesis by (subst grabLoop.simps) simp
  next
    case None
    obtain r2 s2 where g: "myGrab env s1 = (r2, s2)" by (cases "myGrab env s1")
    have a2: "adds executor_event s0 s2"
      using adds_trans [OF a1] myGrab_adds [of s1 env] g by simp
    show ?thesis
    proof (cases r2)
      case (Inl e)
      with m None g a2 show ?thesis by (subst grabLoop.simps) simp
    next
      case (Inr got)
      let ?s3 = "emit (Log WarnDidntGrab) s2"
      have a3: "adds executor_event s0 ?s3" using a2 by (simp add: adds_emit)
      obtain r4 s4 where u: "setupGripper env ?s3 = (r4, s4)" by (cases "setupGripper env ?s3")
      have a4: "adds executor_event s0 s4"
        using adds_trans [OF a3] setupGripper_adds [of ?s3 env] u by simp
      show ?thesis
      proof (cases "got \<or> useZ - 10 < 0 \<or> r4 \<noteq> None")
        case True
        with m None g Inr u a2 a3 a4 show ?thesis
          by (subst grabLoop.simps) (auto simp: Let_def)
      next
        case False
        then have "adds executor_event s4 (snd (grabLoop env center (useZ - 10) s4))"
          using "1.IH" [of r1 s1 r2 s2 got ?s3 r4 s4] m None g Inr u
          by simp
        with a4 have "adds executor_event s0 (snd (grabLoop env center (useZ - 10) s4))"
          by (rule adds_trans)
        with m None g Inr u False show ?thesis
          by (subst grabLoop.simps) (simp add: Let_def)
      qed
    qed
  qed
qed

lemma pickPhase_adds: "adds executor_event s (snd (pickPhase env data from s))"
proof (cases "getCenterFor data from")
  case (Inl e)
  then show ?thesis by (simp add: pickPhase_def)
next
  case (Inr c)
  let ?up = "\<lparr>X = X c, Y = Y c, Z = safeZ\<rparr>"
  obtain r1 s1 where 1: "setupGripper env s = (r1, s1)" by (cases "setupGripper env s")
  obtain r2 s2 where 2: "moveGripper env ?up s1 = (r2, s2)" by (cases "moveGripper env ?up s1")
  obtain r3 s3 where 3: "grabLoop env c (Z c) s2 = (r3, s3)" by (cases "grabLoop env c (Z c) s2")
  obtain r4 s4 where 4: "moveGripper env ?up s3 = (r4, s4)" by (cases "moveGripper env ?up s3")
  have a1: "adds executor_event s s1" using setupGripper_adds [of s env] 1 by simp
  have a2: "adds executor_event s s2"
    using adds_trans [OF a1] moveGripper_adds [of s1 env ?up] 2 by simp
  have a3: "adds executor_event s s3"
    using adds_trans [OF a2] grabLoop_adds [of s2 env c "Z c"] 3 by simp
  have a4: "adds executor_event s s4"
    using adds_trans [OF a3] moveGripper_adds [of s3 env ?up] 4 by simp
  show ?thesis
    using Inr 1 2 3 4 a1 a2 a3 a4
    by (simp add: pickPhase_def split: option.split sum.split)
qed

lemma placePhase_adds: "adds executor_event s (snd (placePhase env data to z s))"
proof (cases "getCenterFor data to")
  case (Inl e)
  then show ?thesis by (simp add: placePhase_def)
next
  case (Inr c)
  let ?up = "\<lparr>X = X c, Y = Y c, Z = safeZ\<rparr>"
  let ?down = "\<lparr>X = X c, Y = Y c, Z = (if to = ''-'' then 300 else z)\<rparr>"
  obtain r1 s1 where 1: "moveGripper env ?up s = (r1, s1)" by (cases "moveGripper env ?up s")
  obtain r2 s2 where 2: "moveGripper env ?down s1 = (r2, s2)" by (cases "moveGripper env ?down s1")
  obtain r3 s3 where 3: "setupGripper env s2 = (r3, s3)" by (cases "setupGripper env s2")
  obtain r4 s4 where 4: "moveGripper env ?up s3 = (r4, s4)" by (cases "moveGripper env ?up s3")
  have a1: "adds executor_event s s1" using moveGripper_adds [of s env ?up] 1 by simp
  have a2: "adds executor_event s s2"
    using adds_trans [OF a1] moveGripper_adds [of s1 env ?down] 2 by simp
  have a3: "adds executor_event s s3"
    using adds_trans [OF a2] setupGripper_adds [of s2 env] 3 by simp
  have a4: "adds executor_event s s4"
    using adds_trans [OF a3] moveGripper_adds [of s3 env ?up] 4 by simp
  show ?thesis
    using Inr 1 2 3 4 a1 a2 a3 a4
    by (simp add: placePhase_def Let_def split: option.split split del: if_split)
qed

lemma pickThenPlace_adds: "adds executor_event s (snd (pickThenPlace env data from to s))"
proof -
  obtain r1 s1 where 1: "pickPhase env data from s = (r1, s1)" by (cases "pickPhase env data from s")
  have a1: "adds executor_event s s1" using pickPhase_adds [of s env data "from"] 1 by simp
  show ?thesis
  proof (cases r1)
    case (Inl e)
    with 1 a1 show ?thesis by (simp add: pickThenPlace_def)
  next
    case (Inr z)
    with 1 adds_trans [OF a1 placePhase_adds [of s1 env data "to" z]] show ?thesis
      by (simp add: pickThenPlace_def)
  qed
qed

lemma movePiece_discard:
  "movePiece env data from ''-'' s =
     pickThenPlace env data from ''-'' (emit (Log (InfoMovePieceCalled from ''-'')) s)"
  by (subst movePiece.simps) (simp add: pickThenPlace_def Let_def)

lemma movePiece_not_found:
  "to \<noteq> ''-'' \<Longrightarrow> findObject data to = None \<Longrightarrow>
   movePiece env data from to s =
     (Some (CantFindObject to), emit (Log (InfoMovePieceCalled from to)) s)"
  by (subst movePiece.simps) (simp add: Let_def)

lemma movePiece_empty:
  "to \<noteq> ''-'' \<Longrightarrow> findObject data to = Some ob \<Longrightarrow> HasSuffix (Label ob) ''-0'' \<Longrightarrow>
   movePiece env data from to s =
     pickThenPlace env data from to (emit (Log (InfoMovePieceCalled from to)) s)"
  by (subst movePiece.simps) (simp add: pickThenPlace_def Let_def)

lemma movePiece_occupied:
  "to \<noteq> ''-'' \<Longrightarrow> findObject data to = Some ob \<Longrightarrow> \<not> HasSuffix (Label ob) ''-0'' \<Longrightarrow>
   movePiece env data from to s =
     (case movePiece env data to ''-''
             (emit (Log (InfoAlreadyHasPiece to (Label ob)))
                (emit (Log (InfoMovePieceCalled from to)) s)) of
        (Some e, s3) \<Rightarrow> (Some (out_of_the_way e), s3)
      | (None, s3) \<Rightarrow> pickThenPlace env data from to s3)"
  by (subst movePiece.simps) (simp add: pickThenPlace_def Let_def split: prod.split option.split)

lemma executor_movePiece_event: "executor_event e \<Longrightarrow> movePiece_event e"
  by (cases e rule: movePiece_event.cases) simp_all

lemma pickThenPlace_adds': "adds movePiece_event s (snd (pickThenPlace env data from to s))"
  using pickThenPlace_adds executor_movePiece_event by (rule adds_mono)

lemma movePiece_discard_adds: "adds movePiece_event s (snd (movePiece env data from ''-'' s))"
proof -
  have "adds movePiece_event s (emit (Log (InfoMovePieceCalled from ''-'')) s)"
    by (simp add: adds_emit)
  then show ?thesis
    unfolding movePiece_discard using pickThenPlace_adds' by (rule adds_trans)
qed

lemma movePiece_adds: "adds movePiece_event s (snd (movePiece env data from to s))"
proof (cases "to = ''-''")
  case True
  then show ?thesis by (simp add: movePiece_discard_adds)
next
  case ne: False
  let ?s1 = "emit (Log (InfoMovePieceCalled from to)) s"
  have a1: "adds movePiece_event s ?s1" by (simp add: adds_emit)
  show ?thesis
  proof (cases "findObject data to")
    case None
    with ne a1 show ?thesis by (simp add: movePiece_not_found)
  next
    case (Some ob)
    show ?thesis
    proof (cases "HasSuffix (Label ob) ''-0''")
      case True
      with ne Some adds_trans [OF a1 pickThenPlace_adds'] show ?thesis
        by (simp add: movePiece_empty)
    next
      case False
      let ?s2 = "emit (Log (InfoAlreadyHasPiece to (Label ob))) ?s1"
      have a2: "adds movePiece_event s ?s2" using a1 by (simp add: adds_emit)
      obtain r3 s3 where 3: "movePiece env data to ''-'' ?s2 = (r3, s3)"
        by (cases "movePiece env data to ''-'' ?s2")
      have a3: "adds movePiece_event s s3"
        using adds_trans [OF a2 movePiece_discard_adds [of ?s2 env data "to"]] 3 by simp
      show ?thesis
      proof (cases r3)
        case None
        with ne Some False 3 adds_trans [OF a3 pickThenPlace_adds'] show ?thesis
          by (simp add: movePiece_occupied)
      next
        case (Some e)
        with ne \<open>findObject data to = Some ob\<close> False 3 a3 show ?thesis
          by (simp add: movePiece_occupied)
      qed
    qed
  qed
qed

lemma goToStart_adds: "adds homing_event s (snd (goToStart env s))"
  by (simp add: goToStart_def Let_def adds_emit split: option.split sum.split)

lemma homing_not_file: "homing_event e \<Longrightarrow> \<not> file_event e"
  by (cases e rule: homing_event.cases) simp_all

lemma executor_not_file: "executor_event e \<Longrightarrow> \<not> file_event e"
  by (cases e rule: executor_event.cases) simp_all

lemma movePiece_not_file: "movePiece_event e \<Longrightarrow> \<not> file_event e"
  by (cases e rule: movePiece_event.cases) (simp_all add: executor_not_file)

lemma goToStart_no_file: "adds (\<lambda>e. \<not> file_event e) s (snd (goToStart env s))"
  using goToStart_adds homing_not_file by (rule adds_mono)

lemma movePiece_no_file: "adds (\<lambda>e. \<not> file_event e) s (snd (movePiece env data from to s))"
  using movePiece_adds movePiece_not_file by (rule adds_mono)

lemma manualLoop_no_file: "adds (\<lambda>e. \<not> file_event e) s (snd (manualLoop env mc xs s))"
proof (induction xs arbitrary: s)
  case Nil
  show ?case by simp
next
  case (Cons x xs)
  let ?from = "if x mod 2 = 1 then To mc else From mc"
  let ?to = "if x mod 2 = 1 then From mc else To mc"
  obtain r1 s1 where 1: "goToStart env s = (r1, s1)" by (cases "goToStart env s")
  have a1: "adds (\<lambda>e. \<not> file_event e) s s1" using goToStart_no_file [of s env] 1 by simp
  let ?s2 = "emit CaptureAllFromCamera s1"
  have a2: "adds (\<lambda>e. \<not> file_event e) s ?s2" using a1 by (simp add: adds_emit)
  show ?case
  proof (cases "Capture_res env (trace ?s2)")
    case (Inl e)
    with 1 a1 a2 show ?thesis by (simp add: Let_def split: option.split)
  next
    case (Inr all)
    obtain r3 s3 where 3: "movePiece env all ?from ?to ?s2 = (r3, s3)"
      by (cases "movePiece env all ?from ?to ?s2")
    have a3: "adds (\<lambda>e. \<not> file_event e) s s3"
      using adds_trans [OF a2 movePiece_no_file [of ?s2 env all ?from ?to]] 3 by simp
    have a4: "adds (\<lambda>e. \<not> file_event e) s (snd (manualLoop env mc xs s3))"
      using a3 Cons.IH by (rule adds_trans)
    from 1 a1 Inr 3 a3 a4 show ?thesis
      by (simp add: Let_def split: option.split split del: if_split)
  qed
qed

lemma DoCommand_manual_no_file:
  assumes "decode cmdMap = Inr cmd" "To (Move cmd) \<noteq> ''''" "From (Move cmd) \<noteq> ''''"
  shows "adds (\<lambda>e. \<not> file_event e) s (snd (DoCommand decode env cmdMap s))"
proof -
  let ?s1 = "emit (Log (InfoMove (From (Move cmd)) (To (Move cmd)))) s"
  obtain r2 s2 where 2: "manualLoop env (Move cmd) [0..<nat (N (Move cmd))] ?s1 = (r2, s2)"
    by (cases "manualLoop env (Move cmd) [0..<nat (N (Move cmd))] ?s1")
  have a1: "adds (\<lambda>e. \<not> file_event e) s ?s1" by (simp add: adds_emit)
  have a2: "adds (\<lambda>e. \<not> file_event e) s s2"
    using adds_trans [OF a1 manualLoop_no_file [of ?s1 env "Move cmd" "[0..<nat (N (Move cmd))]"]] 2
    by simp
  obtain r3 s3 where 3: "goToStart env s2 = (r3, s3)" by (cases "goToStart env s2")
  have a3: "adds (\<lambda>e. \<not> file_event e) s s3"
    using adds_trans [OF a2 goToStart_no_file [of s2 env]] 3 by simp
  have a4: "adds (\<lambda>e. \<not> file_event e) s (emit (Log (WarnCantGoHome e)) s3)" for e
    using a3 by (simp add: adds_emit)
  from assms 2 3 a3 a4 show ?thesis
    by (simp add: DoCommand_def DoCommand_body_def Let_def split: option.split)
qed

lemma calls_append [simp]: "calls (xs @ ys) = calls xs @ calls ys"
  by (induction xs rule: calls.induct) simp_all

lemma calls_executor: "list_all executor_event evs \<Longrightarrow> calls evs = []"
  by (induction evs rule: calls.induct) simp_all

lemma issued_append: "adds P s s' \<Longrightarrow> adds Q s' s'' \<Longrightarrow> issued s s'' = issued s s' @ issued s' s''"
  by (auto simp: adds_def issued_def)

lemma issued_emit [simp]: "issued s (emit ev s) = [ev]"
  by (simp add: issued_def)

lemma issued_self [simp]: "issued s s = []"
  by (simp add: issued_def)

lemma pickThenPlace_calls: "calls (issued s (snd (pickThenPlace env data from to s))) = []"
  using adds_issued [OF pickThenPlace_adds] calls_executor by blast

lemma movePiece_discard_calls:
  "calls (issued s (snd (movePiece env data from ''-'' s))) = [(from, ''-'')]"
proof -
  let ?s1 = "emit (Log (InfoMovePieceCalled from ''-'')) s"
  let ?s2 = "snd (pickThenPlace env data from ''-'' ?s1)"
  have "adds (\<lambda>e. True) s ?s1" by (simp add: adds_emit)
  then have "issued s ?s2 = issued s ?s1 @ issued ?s1 ?s2"
    using pickThenPlace_adds by (rule issued_append)
  then show ?thesis
    by (simp add: movePiece_discard pickThenPlace_calls)
qed

lemma findObject_board:
  "findObject board ''e2'' = Some \<lparr>Label = ''e2-1'', Center = \<lparr>X = 100, Y = 50, Z = 5\<rparr>, Highest = \<lparr>X = 104, Y = 52, Z = 35\<rparr>\<rparr>"
  "findObject board ''e4'' = Some \<lparr>Label = ''e4-0'', Center = \<lparr>X = 100, Y = 150, Z = 4\<rparr>, Highest = \<lparr>X = 90, Y = 140, Z = 6\<rparr>\<rparr>"
  "findObject board ''d5'' = Some \<lparr>Label = ''d5-2'', Center = \<lparr>X = 150, Y = 200, Z = 5\<rparr>, Highest = \<lparr>X = 152, Y = 204, Z = 25\<rparr>\<rparr>"
  by (simp_all add: findObject_def board_def HasPrefix_def)

lemma calm_fields [simp]:
  "SetPosition_err calm = (\<lambda>h. None)"
  "Open_err calm = (\<lambda>h. None)"
  "GetPose_res calm = (\<lambda>h. Inr 0)"
  "Grab_res calm = (\<lambda>h. Inr True)"
  "move_gripper_err calm = (\<lambda>h. None)"
  "get_gripper_res calm = (\<lambda>h. Inr (Some 30))"
  "Move_err calm = (\<lambda>h. None)"
  "Capture_res calm = (\<lambda>h. Inr board)"
  "WriteFile_err calm = (\<lambda>h. None)"
  "engine calm = False"
  "NewGame calm = ''start''"
  "FEN calm = (\<lambda>d. if d = '''' then Inl (External ''empty fen'') else Inr d)"
  "game_FEN calm = (\<lambda>g. g)"
  "ValidMoves calm = (\<lambda>g. [e2e4])"
  "game_Move calm = (\<lambda>g m. Inr (g @ '' '' @ MoveString m))"
  by (simp_all add: calm_def)

lemma never_grasps_fields [simp]:
  "Move_err never_grasps = (\<lambda>h. None)"
  "move_gripper_err never_grasps = (\<lambda>h. None)"
  "Grab_res never_grasps = (\<lambda>h. Inr False)"
  "get_gripper_res never_grasps = (\<lambda>h. Inr (Some 30))"
  by (simp_all add: never_grasps_def)


section \<open>The coordinate resolver\<close>

text \<open>
  Claim C7. For every snapshot and label: the label \<^verbatim>\<open>"-"\<close> yields the fixed discard
  coordinate (400, -400, 400) whatever the snapshot holds, and never fails; a label other
  than \<^verbatim>\<open>"-"\<close> that \<^verbatim>\<open>findObject\<close> finds in the snapshot yields the centre of the region
  when the label of the object ends in \<^verbatim>\<open>"-0"\<close> (classified empty), and otherwise the point
  whose horizontal coordinates are the averages of those of the centre and of the highest
  point and whose vertical coordinate is that of the highest point.
\<close>

theorem getCenterFor_cases:
  "getCenterFor data ''-'' = Inr \<lparr>X = 400, Y = -400, Z = 400\<rparr> \<and>
   (pos \<noteq> ''-'' \<and> findObject data pos = Some ob \<and> HasSuffix (Label ob) ''-0'' \<longrightarrow>
      getCenterFor data pos = Inr (Center ob)) \<and>
   (pos \<noteq> ''-'' \<and> findObject data pos = Some ob \<and> \<not> HasSuffix (Label ob) ''-0'' \<longrightarrow>
      getCenterFor data pos =
        Inr \<lparr>X = (X (Center ob) + X (Highest ob)) / 2,
             Y = (Y (Center ob) + Y (Highest ob)) / 2,
             Z = Z (Highest ob)\<rparr>)"
  by (simp add: getCenterFor_def Let_def)

text \<open>
  An instance for each of the three cases, on the sample snapshot.
\<close>

theorem getCenterFor_cases_witness:
  "getCenterFor board ''-'' = Inr \<lparr>X = 400, Y = -400, Z = 400\<rparr> \<and>
   getCenterFor board ''e4'' = Inr \<lparr>X = 100, Y = 150, Z = 4\<rparr> \<and>
   getCenterFor board ''e2'' = Inr \<lparr>X = 102, Y = 51, Z = 35\<rparr>"
  using
    getCenterFor_cases [of board "''e4''" "\<lparr>Label = ''e4-0'', Center = \<lparr>X = 100, Y = 150, Z = 4\<rparr>, Highest = \<lparr>X = 90, Y = 140, Z = 6\<rparr>\<rparr>"]
    getCenterFor_cases [of board "''e2''" "\<lparr>Label = ''e2-1'', Center = \<lparr>X = 100, Y = 50, Z = 5\<rparr>, Highest = \<lparr>X = 104, Y = 52, Z = 35\<rparr>\<rparr>"]
  by (simp add: findObject_board HasSuffix_def)

section \<open>Loading the persisted position\<close>

text \<open>
  Claim C8. \<^verbatim>\<open>getGame\<close> on a missing file returns the starting position of
  \<^verbatim>\<open>chess.NewGame()\<close> and no error; on a file that cannot be read, or whose contents
  \<^verbatim>\<open>chess.FEN\<close> rejects, it returns an error and no position. (A file whose contents parse
  yields the parsed position.)
\<close>

theorem getGame_load:
  "(fen_store s = NotExist \<longrightarrow> fst (getGame env s) = Inr (NewGame env)) \<and>
   (fen_store s = Unreadable \<longrightarrow> fst (getGame env s) = Inl ErrorReadingFen) \<and>
   (fen_store s = Contents d \<and> FEN env d = Inl e \<longrightarrow> fst (getGame env s) = Inl (InvalidFen e)) \<and>
   (fen_store s = Contents d \<and> FEN env d = Inr g \<longrightarrow> fst (getGame env s) = Inr g)"
  by (simp add: getGame_def Let_def os_ReadFile_def IsNotExist_def)

text \<open>
  An instance for each case: a missing file, an unreadable one, an empty one that the
  sample parser rejects, and one that it accepts.
\<close>

theorem getGame_load_witness:
  "fst (getGame calm homed) = Inr ''start'' \<and>
   fst (getGame calm (homed\<lparr>fen_store := Unreadable\<rparr>)) = Inl ErrorReadingFen \<and>
   fst (getGame calm (homed\<lparr>fen_store := Contents ''''\<rparr>)) = Inl (InvalidFen (External ''empty fen'')) \<and>
   fst (getGame calm (homed\<lparr>fen_store := Contents ''8/8 w''\<rparr>)) = Inr ''8/8 w''"
  using getGame_load [where s = homed and env = calm]
    getGame_load [where s = "homed\<lparr>fen_store := Unreadable\<rparr>" and env = calm]
    getGame_load [where s = "homed\<lparr>fen_store := Contents ''''\<rparr>" and env = calm and d = "''''"
      and e = "External ''empty fen''"]
    getGame_load [where s = "homed\<lparr>fen_store := Contents ''8/8 w''\<rparr>" and env = calm
      and d = "''8/8 w''" and g = "''8/8 w''"]
  by (simp add: homed_def)

section \<open>Grasp verification\<close>

text \<open>
  Claim C4, as amended. For a grasp attempt whose \<^verbatim>\<open>Grab\<close> call returns \<open>got\<close> and whose
  aperture reading returns \<open>p\<close>, \<^verbatim>\<open>myGrab\<close> accepts exactly when \<open>got\<close> holds and \<open>p\<close> is
  at least 20. In the loop of \<^verbatim>\<open>movePiece\<close>, an accepted attempt leaves the loop with the
  current height; a rejected one (also a reported success with an aperture below 20)
  takes the retry path: warn, lower the height by 10, give up below 0, otherwise re-open
  the gripper and go round again.
\<close>

theorem myGrab_accepts_iff:
  assumes "Grab_res env (trace s @ [GripperGrab]) = Inr got"
    and "get_gripper_res env (trace s @ [GripperGrab, Sleep 300, ArmGetGripper]) = Inr (Some p)"
  shows "fst (myGrab env s) = Inr (got \<and> 20 \<le> p) \<and>
    (moveGripper env \<lparr>X = X c, Y = Y c, Z = z\<rparr> s0 = (None, s) \<longrightarrow>
       grabLoop env c z s0 =
         (if got \<and> 20 \<le> p then (Inr z, snd (myGrab env s))
          else
            (let s3 = emit (Log WarnDidntGrab) (snd (myGrab env s)) in
             if z - 10 < 0 then (Inl CouldntGrab, s3)
             else
               (case setupGripper env s3 of
                  (Some e, s4) \<Rightarrow> (Inl e, s4)
                | (None, s4) \<Rightarrow> grabLoop env c (z - 10) s4))))"
proof -
  have g: "fst (myGrab env s) = Inr (got \<and> 20 \<le> p)"
    using assms by (auto simp: myGrab_def Let_def)
  obtain s2 where m: "myGrab env s = (Inr (got \<and> 20 \<le> p), s2)"
    using g by (cases "myGrab env s") simp
  then have s2: "snd (myGrab env s) = s2" by simp
  have "grabLoop env c z s0 =
         (if got \<and> 20 \<le> p then (Inr z, snd (myGrab env s))
          else
            (let s3 = emit (Log WarnDidntGrab) (snd (myGrab env s)) in
             if z - 10 < 0 then (Inl CouldntGrab, s3)
             else
               (case setupGripper env s3 of
                  (Some e, s4) \<Rightarrow> (Inl e, s4)
                | (None, s4) \<Rightarrow> grabLoop env c (z - 10) s4)))"
    if "moveGripper env \<lparr>X = X c, Y = Y c, Z = z\<rparr> s0 = (None, s)"
    unfolding s2 using that m by (subst grabLoop.simps) (simp add: Let_def)
  with g show ?thesis by blast
qed

text \<open>
  Two instances: a reported grasp with aperture 30 is accepted, one with aperture 5 is
  rejected.
\<close>

theorem myGrab_accepts_iff_witness:
  "Grab_res calm (trace homed @ [GripperGrab]) = Inr True \<and>
   get_gripper_res calm (trace homed @ [GripperGrab, Sleep 300, ArmGetGripper]) = Inr (Some 30) \<and>
   fst (myGrab calm homed) = Inr True \<and>
   Grab_res aperture5 (trace homed @ [GripperGrab]) = Inr True \<and>
   get_gripper_res aperture5 (trace homed @ [GripperGrab, Sleep 300, ArmGetGripper]) = Inr (Some 5) \<and>
   fst (myGrab aperture5 homed) = Inr False"
proof -
  have 1: "Grab_res calm (trace homed @ [GripperGrab]) = Inr True" by simp
  have 2: "get_gripper_res calm (trace homed @ [GripperGrab, Sleep 300, ArmGetGripper]) = Inr (Some 30)"
    by simp
  have 3: "Grab_res aperture5 (trace homed @ [GripperGrab]) = Inr True"
    by (simp add: aperture5_def)
  have 4: "get_gripper_res aperture5 (trace homed @ [GripperGrab, Sleep 300, ArmGetGripper]) = Inr (Some 5)"
    by (simp add: aperture5_def)
  from myGrab_accepts_iff [OF 1 2] myGrab_accepts_iff [OF 3 4] 1 2 3 4 show ?thesis by simp
qed

text \<open>
  Claim C4 as stated fails at an aperture of exactly 20: the aperture does not exceed
  the threshold, the grasp call reports success, \<^verbatim>\<open>myGrab\<close> accepts the grasp, and the
  loop of \<^verbatim>\<open>movePiece\<close> leaves with the height of this first attempt.
\<close>

theorem myGrab_aperture_20_counterexample:
  "Grab_res aperture20 (trace homed @ [GripperGrab]) = Inr True \<and>
   get_gripper_res aperture20 (trace homed @ [GripperGrab, Sleep 300, ArmGetGripper]) = Inr (Some 20) \<and>
   fst (myGrab aperture20 homed) = Inr True \<and>
   fst (grabLoop aperture20 \<lparr>X = 102, Y = 51, Z = 35\<rparr> 35 homed) = Inr 35"
  by (simp add: grabLoop.simps moveGripper_def myGrab_def aperture20_def homed_def emit_def Let_def)

section \<open>The grasp-retry loop\<close>

lemma descents_append [simp]: "descents (xs @ ys) = descents xs @ descents ys"
  by (induction xs rule: descents.induct) simp_all

lemma grasps_append [simp]: "grasps (xs @ ys) = grasps xs + grasps ys"
  by (induction xs rule: grasps.induct) simp_all

lemma runs_refl [simp]: "runs s s [] 0"
  by (simp add: runs_def)













text \<open>
  A grasp reported three times with aperture 5 and then with aperture 25: three retries,
  each 10 lower, and the fourth attempt is accepted at height 5.
\<close>

lemma grabLoop_three_retries:
  "fst (grabLoop fourth_time_lucky \<lparr>X = 102, Y = 51, Z = 35\<rparr> 35 homed) = Inr 5 \<and>
   descents (issued homed (snd (grabLoop fourth_time_lucky \<lparr>X = 102, Y = 51, Z = 35\<rparr> 35 homed))) =
     [35, 25, 15, 5] \<and>
   grasps (issued homed (snd (grabLoop fourth_time_lucky \<lparr>X = 102, Y = 51, Z = 35\<rparr> 35 homed))) = 4"
  by (simp add: grabLoop.simps myGrab_def moveGripper_def setupGripper_def fourth_time_lucky_def
      homed_def emit_def issued_def Let_def)




section \<open>Displacement of a piece on the destination\<close>

text \<open>
  Claim C6. For every call of \<^verbatim>\<open>movePiece\<close> with a destination other than \<^verbatim>\<open>"-"\<close>: when
  the destination is occupied in the snapshot, the call is the recursive call
  \<^verbatim>\<open>movePiece(data, to, "-")\<close> followed, if that succeeds, by the main sequence, and the
  invocations made are the call itself and that one recursive call, in this order; when
  the destination is empty, the call goes straight to the main sequence and there is no
  other invocation. A call with destination \<^verbatim>\<open>"-"\<close> makes no further invocation, so the
  recursion is one level deep. The call only appends to the trace.
\<close>

theorem movePiece_displacement:
  assumes "to \<noteq> ''-''"
  shows
    "(findObject data to = Some ob \<and> \<not> HasSuffix (Label ob) ''-0'' \<longrightarrow>
        movePiece env data from to s =
          (case movePiece env data to ''-''
                  (emit (Log (InfoAlreadyHasPiece to (Label ob)))
                     (emit (Log (InfoMovePieceCalled from to)) s)) of
             (Some e, s3) \<Rightarrow> (Some (out_of_the_way e), s3)
           | (None, s3) \<Rightarrow> pickThenPlace env data from to s3) \<and>
        calls (issued s (snd (movePiece env data from to s))) = [(from, to), (to, ''-'')]) \<and>
     (findObject data to = Some ob \<and> HasSuffix (Label ob) ''-0'' \<longrightarrow>
        movePiece env data from to s =
          pickThenPlace env data from to (emit (Log (InfoMovePieceCalled from to)) s) \<and>
        calls (issued s (snd (movePiece env data from to s))) = [(from, to)]) \<and>
     calls (issued s (snd (movePiece env data to ''-'' s))) = [(to, ''-'')] \<and>
     trace (snd (movePiece env data from to s)) =
       trace s @ issued s (snd (movePiece env data from to s))"
proof (intro conjI impI)
  assume occ: "findObject data to = Some ob \<and> \<not> HasSuffix (Label ob) ''-0''"
  let ?s1 = "emit (Log (InfoMovePieceCalled from to)) s"
  let ?s2 = "emit (Log (InfoAlreadyHasPiece to (Label ob))) ?s1"
  show eq: "movePiece env data from to s =
          (case movePiece env data to ''-'' ?s2 of
             (Some e, s3) \<Rightarrow> (Some (out_of_the_way e), s3)
           | (None, s3) \<Rightarrow> pickThenPlace env data from to s3)"
    using assms occ by (simp add: movePiece_occupied)
  obtain r3 s3 where 3: "movePiece env data to ''-'' ?s2 = (r3, s3)"
    by (cases "movePiece env data to ''-'' ?s2")
  have c3: "calls (issued ?s2 s3) = [(to, ''-'')]"
    using movePiece_discard_calls [of ?s2 env data "to"] 3 by simp
  have a2: "adds (\<lambda>e. True) s ?s2" by (simp add: adds_emit)
  have i2: "issued s ?s2 = [Log (InfoMovePieceCalled from to), Log (InfoAlreadyHasPiece to (Label ob))]"
    by (simp add: issued_def)
  have a3: "adds movePiece_event ?s2 s3"
    using movePiece_adds [of ?s2 env data "to" "''-''"] 3 by simp
  have i3: "issued s s3 = issued s ?s2 @ issued ?s2 s3"
    using a2 a3 by (rule issued_append)
  have a03: "adds (\<lambda>e. True) s s3"
    using adds_trans [OF a2 adds_mono [OF a3]] by simp
  show "calls (issued s (snd (movePiece env data from to s))) = [(from, to), (to, ''-'')]"
  proof (cases r3)
    case (Some e)
    with eq 3 i3 i2 c3 show ?thesis by simp
  next
    case None
    have "issued s (snd (pickThenPlace env data from to s3)) =
        issued s s3 @ issued s3 (snd (pickThenPlace env data from to s3))"
      using a03 pickThenPlace_adds by (rule issued_append)
    with None eq 3 i3 i2 c3 show ?thesis by (simp add: pickThenPlace_calls)
  qed
next
  assume emp: "findObject data to = Some ob \<and> HasSuffix (Label ob) ''-0''"
  let ?s1 = "emit (Log (InfoMovePieceCalled from to)) s"
  show eq: "movePiece env data from to s = pickThenPlace env data from to ?s1"
    using assms emp by (simp add: movePiece_empty)
  have "adds (\<lambda>e. True) s ?s1" by (simp add: adds_emit)
  then have "issued s (snd (pickThenPlace env data from to ?s1)) =
      issued s ?s1 @ issued ?s1 (snd (pickThenPlace env data from to ?s1))"
    using pickThenPlace_adds by (rule issued_append)
  then show "calls (issued s (snd (movePiece env data from to s))) = [(from, to)]"
    by (simp add: eq pickThenPlace_calls)
next
  show "calls (issued s (snd (movePiece env data to ''-'' s))) = [(to, ''-'')]"
    by (rule movePiece_discard_calls)
next
  show "trace (snd (movePiece env data from to s)) =
      trace s @ issued s (snd (movePiece env data from to s))"
    using adds_issued [OF movePiece_adds] by blast
qed

text \<open>
  Instances on the sample snapshot: e2 to the occupied d5, e2 to the empty e4.
\<close>

theorem movePiece_displacement_witness:
  "calls (issued homed (snd (movePiece calm board ''e2'' ''d5'' homed))) = [(''e2'', ''d5''), (''d5'', ''-'')] \<and>
   calls (issued homed (snd (movePiece calm board ''e2'' ''e4'' homed))) = [(''e2'', ''e4'')] \<and>
   calls (issued homed (snd (movePiece calm board ''d5'' ''-'' homed))) = [(''d5'', ''-'')]"
proof -
  let ?d5 = "\<lparr>Label = ''d5-2'', Center = \<lparr>X = 150, Y = 200, Z = 5\<rparr>, Highest = \<lparr>X = 152, Y = 204, Z = 25\<rparr>\<rparr>"
  let ?e4 = "\<lparr>Label = ''e4-0'', Center = \<lparr>X = 100, Y = 150, Z = 4\<rparr>, Highest = \<lparr>X = 90, Y = 140, Z = 6\<rparr>\<rparr>"
  have 1: "''d5'' \<noteq> ''-''" and 2: "''e4'' \<noteq> ''-''" by simp_all
  have occupied: "findObject board ''d5'' = Some ?d5 \<and> \<not> HasSuffix (Label ?d5) ''-0''"
    by (simp add: findObject_board HasSuffix_def)
  have empty: "findObject board ''e4'' = Some ?e4 \<and> HasSuffix (Label ?e4) ''-0''"
    by (simp add: findObject_board HasSuffix_def)
  from movePiece_displacement [OF 1, of board ?d5 calm "''e2''" homed] movePiece_displacement [OF 2, of board ?e4 calm "''e2''" homed]
    occupied empty
  show ?thesis
    by blast
qed

section \<open>Castling\<close>

text \<open>
  Claim C2, as amended. When \<^verbatim>\<open>pickMove\<close> returns a move tagged king-side or queen-side
  castling, \<^verbatim>\<open>makeAMove\<close> rejects it with the error "can't handle castle". By then the
  invocation has issued the homing sequence of \<^verbatim>\<open>goToStart\<close> (staging switch, gripper
  open, delay, pose query), the read of the position file and, with an engine, the
  engine request, and nothing else: no capture, no motion request, no arm command and
  no grasp.
\<close>

theorem makeAMove_rejects_castling:
  assumes "goToStart env s = (None, s1)"
    and "getGame env s1 = (Inr game, s2)"
    and "pickMove env game s2 = (Inr (Some m), s3)"
    and "HasTag m KingSideCastle \<or> HasTag m QueenSideCastle"
  shows "makeAMove env s = (Inl (CantHandleCastle m), s3) \<and>
         trace s3 = trace s @ issued s s3 \<and>
         issued s s3 =
           [SetPosition 2, GripperOpen, Sleep 1000, GetPose, ReadFile] @
           (if engine env then [EngineRun] else [])"
proof -
  have 1: "trace s1 = trace s @ [SetPosition 2, GripperOpen, Sleep 1000, GetPose]"
    using assms(1) by (auto simp: goToStart_def Let_def split: option.splits sum.splits)
  have 2: "trace s2 = trace s1 @ [ReadFile]"
    using assms(2) by (auto simp: getGame_def Let_def split: if_splits sum.splits)
  have 3: "trace s3 = trace s2 @ (if engine env then [EngineRun] else [])"
    using assms(3) by (auto simp: pickMove_def Let_def split: if_splits list.splits option.splits)
  have "makeAMove env s = (Inl (CantHandleCastle m), s3)"
    using assms by (simp add: makeAMove_def)
  with 1 2 3 show ?thesis
    by (simp add: issued_def)
qed

text \<open>
  An instance: without an engine, the first legal move is a king-side castling.
\<close>

theorem makeAMove_rejects_castling_witness:
  "goToStart castling homed =
     (None, \<lparr>trace = [SetPosition 2, GripperOpen, Sleep 1000, GetPose],
             startPose = Some 0, fen_store = NotExist\<rparr>) \<and>
   getGame castling
     \<lparr>trace = [SetPosition 2, GripperOpen, Sleep 1000, GetPose],
      startPose = Some 0, fen_store = NotExist\<rparr> =
     (Inr ''start'', \<lparr>trace = [SetPosition 2, GripperOpen, Sleep 1000, GetPose, ReadFile],
                      startPose = Some 0, fen_store = NotExist\<rparr>) \<and>
   pickMove castling ''start''
     \<lparr>trace = [SetPosition 2, GripperOpen, Sleep 1000, GetPose, ReadFile],
      startPose = Some 0, fen_store = NotExist\<rparr> =
     (Inr (Some short_castle),
      \<lparr>trace = [SetPosition 2, GripperOpen, Sleep 1000, GetPose, ReadFile],
       startPose = Some 0, fen_store = NotExist\<rparr>) \<and>
   HasTag short_castle KingSideCastle \<and>
   makeAMove castling homed =
     (Inl (CantHandleCastle short_castle),
      \<lparr>trace = [SetPosition 2, GripperOpen, Sleep 1000, GetPose, ReadFile],
       startPose = Some 0, fen_store = NotExist\<rparr>) \<and>
   issued homed
     \<lparr>trace = [SetPosition 2, GripperOpen, Sleep 1000, GetPose, ReadFile],
      startPose = Some 0, fen_store = NotExist\<rparr> =
     [SetPosition 2, GripperOpen, Sleep 1000, GetPose, ReadFile]"
proof -
  let ?s1 = "\<lparr>trace = [SetPosition 2, GripperOpen, Sleep 1000, GetPose],
             startPose = Some 0, fen_store = NotExist\<rparr>"
  let ?s2 = "\<lparr>trace = [SetPosition 2, GripperOpen, Sleep 1000, GetPose, ReadFile],
             startPose = Some 0, fen_store = NotExist\<rparr>"
  have 1: "goToStart castling homed = (None, ?s1)"
    by (simp add: goToStart_def castling_def homed_def emit_def Let_def)
  have 2: "getGame castling ?s1 = (Inr ''start'', ?s2)"
    by (simp add: getGame_def castling_def emit_def Let_def os_ReadFile_def IsNotExist_def)
  have 3: "pickMove castling ''start'' ?s2 = (Inr (Some short_castle), ?s2)"
    by (simp add: pickMove_def castling_def)
  have 4: "HasTag short_castle KingSideCastle \<or> HasTag short_castle QueenSideCastle"
    by (simp add: HasTag_def short_castle_def)
  have e: "engine castling = False"
    by (simp add: castling_def)
  from makeAMove_rejects_castling [OF 1 2 3 4] 1 2 3 4 e show ?thesis
    by (simp add: HasTag_def short_castle_def)
qed

text \<open>
  Claim C2 as stated fails: when the castling move is rejected, the invocation has
  already set the staging switch and opened the gripper.
\<close>

theorem makeAMove_castling_after_homing_counterexample:
  "fst (makeAMove castling homed) = Inl (CantHandleCastle short_castle) \<and>
   HasTag short_castle KingSideCastle \<and>
   trace (snd (makeAMove castling homed)) =
     [SetPosition 2, GripperOpen, Sleep 1000, GetPose, ReadFile]"
  by (simp add: makeAMove_def goToStart_def getGame_def pickMove_def castling_def homed_def
      emit_def Let_def os_ReadFile_def IsNotExist_def HasTag_def short_castle_def)

section \<open>The homing finalizer\<close>

text \<open>
  Claim C9. Every invocation of \<^verbatim>\<open>DoCommand\<close>, whatever its body returns (a result, an
  error, the error of a command that does not decode or matches no shape), returns what
  its body returns, and after the body it runs \<^verbatim>\<open>goToStart\<close>: the staging switch is set,
  then the gripper is opened and the pose is read, as far as these calls succeed. When
  one of them fails, a warning is logged and nothing else changes.
\<close>

theorem DoCommand_homing_finalizer:
  "fst (DoCommand decode env cmdMap s) = fst (DoCommand_body decode env cmdMap s) \<and>
   (let s1 = snd (DoCommand_body decode env cmdMap s);
        s2 = snd (DoCommand decode env cmdMap s)
    in trace s2 = trace s1 @ issued s1 s2 \<and>
       (case fst (goToStart env s1) of
          None \<Rightarrow> issued s1 s2 = [SetPosition 2, GripperOpen, Sleep 1000, GetPose]
        | Some err \<Rightarrow>
            issued s1 s2 = [SetPosition 2, Log (WarnCantGoHome err)] \<or>
            issued s1 s2 = [SetPosition 2, GripperOpen, Log (WarnCantGoHome err)] \<or>
            issued s1 s2 =
              [SetPosition 2, GripperOpen, Sleep 1000, GetPose, Log (WarnCantGoHome err)]))"
proof -
  obtain r s1 where b: "DoCommand_body decode env cmdMap s = (r, s1)"
    by (cases "DoCommand_body decode env cmdMap s")
  show ?thesis
    unfolding DoCommand_def b
    by (simp add: goToStart_def Let_def issued_def split: option.split sum.split)
qed

text \<open>
  An instance: a command of neither shape, and a gripper that cannot open.
\<close>

theorem DoCommand_homing_finalizer_witness:
  "fst (DoCommand (\<lambda>c. Inr c) stuck_gripper no_command homed) = Inl BadCmd \<and>
   trace (snd (DoCommand (\<lambda>c. Inr c) stuck_gripper no_command homed)) =
     [SetPosition 2, GripperOpen, Log (WarnCantGoHome (External ''gripper stuck''))]"
proof -
  have d: "DoCommand (\<lambda>c. Inr c) stuck_gripper no_command homed =
      (Inl BadCmd,
       \<lparr>trace = [SetPosition 2, GripperOpen, Log (WarnCantGoHome (External ''gripper stuck''))],
        startPose = Some 0, fen_store = NotExist\<rparr>)"
    by (simp add: DoCommand_def DoCommand_body_def no_command_def goToStart_def
        stuck_gripper_def Let_def emit_def homed_def)
  from DoCommand_homing_finalizer [of "\<lambda>c. Inr c" stuck_gripper no_command homed] d show ?thesis
    by simp
qed

section \<open>Manual moves and the position file\<close>

text \<open>
  Claim C10. An invocation of \<^verbatim>\<open>DoCommand\<close> whose command decodes with a non-empty
  \<^verbatim>\<open>From\<close> and a non-empty \<^verbatim>\<open>To\<close> (the manual move) only appends to the trace,
  neither reads nor writes the position file, and leaves its contents as they were,
  whether it succeeds or fails.
\<close>

theorem DoCommand_manual_move_keeps_file:
  assumes "decode cmdMap = Inr cmd" "To (Move cmd) \<noteq> ''''" "From (Move cmd) \<noteq> ''''"
  shows "fen_store (snd (DoCommand decode env cmdMap s)) = fen_store s \<and>
         trace (snd (DoCommand decode env cmdMap s)) =
           trace s @ issued s (snd (DoCommand decode env cmdMap s)) \<and>
         ReadFile \<notin> set (issued s (snd (DoCommand decode env cmdMap s))) \<and>
         (\<forall>d. WriteFile d \<notin> set (issued s (snd (DoCommand decode env cmdMap s))))"
proof -
  let ?s' = "snd (DoCommand decode env cmdMap s)"
  have "list_all (\<lambda>e. \<not> file_event e) (issued s ?s')" and "fen_store ?s' = fen_store s"
    and "trace ?s' = trace s @ issued s ?s'"
    using adds_issued [OF DoCommand_manual_no_file [of decode cmdMap cmd s env]] assms by simp_all
  then show ?thesis
    by (auto simp: list_all_iff)
qed

text \<open>
  An instance: two moves back and forth between e2 and e4.
\<close>

theorem DoCommand_manual_move_keeps_file_witness:
  "(\<lambda>c. Inr c) back_and_forth = Inr back_and_forth \<and>
   To (Move back_and_forth) \<noteq> '''' \<and> From (Move back_and_forth) \<noteq> '''' \<and>
   fen_store (snd (DoCommand (\<lambda>c. Inr c) calm back_and_forth homed)) = fen_store homed \<and>
   trace (snd (DoCommand (\<lambda>c. Inr c) calm back_and_forth homed)) =
     trace homed @ issued homed (snd (DoCommand (\<lambda>c. Inr c) calm back_and_forth homed)) \<and>
   ReadFile \<notin> set (issued homed (snd (DoCommand (\<lambda>c. Inr c) calm back_and_forth homed))) \<and>
   (\<forall>d. WriteFile d \<notin> set (issued homed (snd (DoCommand (\<lambda>c. Inr c) calm back_and_forth homed))))"
proof -
  have 1: "(\<lambda>c. Inr c) back_and_forth = Inr back_and_forth" by simp
  have 2: "To (Move back_and_forth) \<noteq> ''''" and 3: "From (Move back_and_forth) \<noteq> ''''"
    by (simp_all add: back_and_forth_def)
  from DoCommand_manual_move_keeps_file [of "\<lambda>c. Inr c" back_and_forth back_and_forth, OF 1 2 3, of calm homed] 1 2 3
  show ?thesis by blast
qed

text \<open>
  The invocations that take neither branch (a command that does not decode, or one of no
  shape) leave the position file alone as well.
\<close>

lemma DoCommand_other_paths_keep_file:
  assumes "(\<exists>e. decode cmdMap = Inl e) \<or>
     (\<exists>cmd. decode cmdMap = Inr cmd \<and> (To (Move cmd) = '''' \<or> From (Move cmd) = '''') \<and> \<not> 0 < Go cmd)"
  shows "adds (\<lambda>e. \<not> file_event e) s (snd (DoCommand decode env cmdMap s))"
proof -
  have b: "snd (DoCommand_body decode env cmdMap s) = s"
    using assms by (auto simp: DoCommand_body_def)
  obtain r where r: "DoCommand_body decode env cmdMap s = (r, s)"
    using b by (cases "DoCommand_body decode env cmdMap s") simp
  obtain r3 s3 where 3: "goToStart env s = (r3, s3)" by (cases "goToStart env s")
  have a3: "adds (\<lambda>e. \<not> file_event e) s s3"
    using goToStart_no_file [of s env] 3 by simp
  have a4: "adds (\<lambda>e. \<not> file_event e) s (emit (Log (WarnCantGoHome e)) s3)" for e
    using a3 by (simp add: adds_emit)
  from r 3 a3 a4 show ?thesis
    by (simp add: DoCommand_def split: option.split)
qed

text \<open>
  The auto-play branch is the one that reads and writes the file: one move from the
  starting position with the sample collaborators.
\<close>

lemma movePiece_e2_e4:
  "movePiece calm board ''e2'' ''e4'' s =
     pickThenPlace calm board ''e2'' ''e4'' (emit (Log (InfoMovePieceCalled ''e2'' ''e4'')) s)"
  by (rule movePiece_empty [OF _ findObject_board(2)]) (simp_all add: HasSuffix_def)

lemma DoCommand_play_touches_file:
  "fst (DoCommand (\<lambda>c. Inr c) calm play_once homed) = Inr (Some ''e2e4'') \<and>
   filter file_event (trace (snd (DoCommand (\<lambda>c. Inr c) calm play_once homed))) =
     [ReadFile, WriteFile ''start e2e4''] \<and>
   fen_store (snd (DoCommand (\<lambda>c. Inr c) calm play_once homed)) = Contents ''start e2e4''"
  by (simp add: DoCommand_def DoCommand_body_def play_once_def makeAMove_def goToStart_def
      getGame_def pickMove_def saveGame_def os_ReadFile_def IsNotExist_def HasTag_def e2e4_def
      movePiece_e2_e4 pickThenPlace_def pickPhase_def placePhase_def getCenterFor_def
      findObject_board HasSuffix_def grabLoop.simps myGrab_def moveGripper_def setupGripper_def
      homed_def emit_def Let_def safeZ_def)

end
